theory Spec2Isabelle
  imports Complex_Main
begin

section \<open>Tabular batches\<close>

text \<open>
  The pipeline of \<^verbatim>\<open>etl_pipeline.py\<close> moves batches between pandas data frames and four
  PostgreSQL tables. A data frame is modelled column-wise, as pandas has it: an ordered
  list of named columns (names may repeat after a rename) and the number of rows.
  A cell is a null, an integer, a number or a text; strings are byte strings.
\<close>

datatype cell = Null | IntV int | NumV rat | StrV string

record frame =
  columns :: "(string \<times> cell list) list"
  nrows :: nat

definition wf_frame :: "frame \<Rightarrow> bool" where
  "wf_frame df = list_all (\<lambda>cv. length (snd cv) = nrows df) (columns df)"

definition column_names :: "frame \<Rightarrow> string list" where
  "column_names df = map fst (columns df)"

text \<open>The Python exceptions the program can meet outside SQL.\<close>

datatype py_error = KeyError string | ValueError | NameError string

text \<open>\<^verbatim>\<open>df[c]\<close>: every column labelled \<open>c\<close>; a missing label raises KeyError.\<close>

definition getitem :: "string \<Rightarrow> frame \<Rightarrow> py_error + cell list list" where
  "getitem c df =
     (if c \<in> set (column_names df)
      then Inr (map snd (filter (\<lambda>cv. fst cv = c) (columns df)))
      else Inl (KeyError c))"

text \<open>
  \<^verbatim>\<open>df[[l1, l2, ...]]\<close>: the columns carrying each label, label by label; a missing
  label raises KeyError.
\<close>

definition getitem_list :: "string list \<Rightarrow> frame \<Rightarrow> py_error + frame" where
  "getitem_list labels df =
     (case filter (\<lambda>l. l \<notin> set (column_names df)) labels of
        [] \<Rightarrow> Inr (df\<lparr>columns := concat (map (\<lambda>l. filter (\<lambda>cv. fst cv = l) (columns df)) labels)\<rparr>)
      | l # _ \<Rightarrow> Inl (KeyError l))"

text \<open>\<^verbatim>\<open>df.rename(columns=m)\<close>: labels found in \<open>m\<close> are replaced, the others kept.\<close>

definition rename :: "(string \<times> string) list \<Rightarrow> frame \<Rightarrow> frame" where
  "rename m df =
     df\<lparr>columns := map (\<lambda>cv. (case map_of m (fst cv) of Some c' \<Rightarrow> c' | None \<Rightarrow> fst cv, snd cv))
                       (columns df)\<rparr>"

text \<open>The cells of row \<open>i\<close> under the label \<open>c\<close>.\<close>

definition row_cells :: "frame \<Rightarrow> nat \<Rightarrow> string \<Rightarrow> cell list" where
  "row_cells df i c = map (\<lambda>cv. snd cv ! i) (filter (\<lambda>cv. fst cv = c) (columns df))"

section \<open>Record normalizer\<close>

definition column_map :: "(string \<times> string) list" where
  "column_map =
     [(''PassengerId'', ''passenger_id''), (''Name'', ''name''), (''Sex'', ''sex''),
      (''Age'', ''age''), (''SibSp'', ''sibsp''), (''Parch'', ''parch''),
      (''Fare'', ''fare''), (''Embarked'', ''embarked'')]"

definition canonical_columns :: "string list" where
  "canonical_columns = map snd column_map"

text \<open>
  \<^verbatim>\<open>load_and_prepare_passengers(csv_path)\<close>. The argument is what \<^verbatim>\<open>pd.read_csv\<close> gives for
  the path: \<open>None\<close> when it raises. Every exception inside the function is caught and turned
  into \<^verbatim>\<open>sys.exit(1)\<close>, here \<open>Inl 1\<close>. The count of missing ages is only logged, but reading
  \<^verbatim>\<open>df['age']\<close> for it raises when the batch has no age column.
\<close>

definition load_and_prepare_passengers :: "frame option \<Rightarrow> nat + frame" where
  "load_and_prepare_passengers csv =
     (case csv of
        None \<Rightarrow> Inl 1
      | Some df0 \<Rightarrow>
          (let df1 = rename column_map df0 in
           case getitem_list (filter (\<lambda>v. v \<in> set (column_names df1)) (map snd column_map)) df1 of
             Inl e \<Rightarrow> Inl 1
           | Inr df2 \<Rightarrow>
               (case getitem ''age'' df2 of
                  Inl e \<Rightarrow> Inl 1
                | Inr missing_ages \<Rightarrow> Inr df2)))"

subsection \<open>Synthesized tickets\<close>

definition digit :: "nat \<Rightarrow> char" where
  "digit d = char_of (48 + d)"

text \<open>Python's \<^verbatim>\<open>str(i)\<close> on a non-negative integer: its decimal numeral.\<close>

function str :: "nat \<Rightarrow> string" where
  "str n = (if n < 10 then [digit n] else str (n div 10) @ [digit (n mod 10)])"
  by pat_completeness auto
termination
  by (relation "measure id") auto

declare str.simps [simp del]

text \<open>
  \<^verbatim>\<open>create_tickets_df(passengers_df)\<close>. \<^verbatim>\<open>passengers_df['passenger_id']\<close> raises KeyError
  without such a column and is a two-dimensional frame, which the \<^verbatim>\<open>DataFrame\<close> constructor
  refuses, when several columns carry the label.
\<close>

definition create_tickets_df :: "frame \<Rightarrow> py_error + frame" where
  "create_tickets_df passengers_df =
     (case getitem ''passenger_id'' passengers_df of
        Inl e \<Rightarrow> Inl e
      | Inr [ids] \<Rightarrow>
          Inr \<lparr>columns =
                 [(''ticket_id'', ids),
                  (''passenger_id'', ids),
                  (''ticket'', map (\<lambda>i. StrV (''T'' @ str i)) [1..<nrows passengers_df + 1]),
                  (''class'', replicate (nrows passengers_df) (IntV 3)),
                  (''cabin'', replicate (nrows passengers_df) (StrV ''Unknown''))],
               nrows = nrows passengers_df\<rparr>
      | Inr _ \<Rightarrow> Inl ValueError)"

section \<open>The database\<close>

text \<open>
  Modelled from the spec: the schema is not part of the repository (the pipeline assumes
  it exists), so the row types follow the data model of the specification. Staging rows
  mirror the batches with every column nullable; final rows carry the columns that the
  \<^verbatim>\<open>INSERT\<close> statements of \<^verbatim>\<open>transform_and_load\<close> list, with primary keys
  \<^verbatim>\<open>passenger_id\<close> and \<^verbatim>\<open>ticket_id\<close>.
\<close>

record sp_row =
  sp_passenger_id :: "int option"
  sp_name :: "string option"
  sp_sex :: "string option"
  sp_age :: "rat option"
  sp_sibsp :: "int option"
  sp_parch :: "int option"
  sp_fare :: "rat option"
  sp_embarked :: "string option"

record st_row =
  st_ticket_id :: "int option"
  st_passenger_id :: "int option"
  st_ticket :: "string option"
  st_class :: "int option"
  st_cabin :: "string option"

record passenger =
  p_passenger_id :: "int option"
  p_name :: "string option"
  p_sex :: "string option"
  p_age :: rat
  p_family_size :: int
  p_embarked :: string

record ticket =
  t_ticket_id :: "int option"
  t_passenger_id :: "int option"
  t_ticket_number :: "string option"
  t_class :: "int option"
  t_cabin :: "string option"

text \<open>
  The identity fields count the values drawn from the identity sequences owned by a
  staging table since their last restart.
\<close>

record db =
  staging_passengers :: "sp_row list"
  staging_tickets :: "st_row list"
  sp_identity :: nat
  st_identity :: nat
  passengers :: "passenger list"
  tickets :: "ticket list"

subsection \<open>SQL functions\<close>

text \<open>
  PostgreSQL's \<^verbatim>\<open>TRIM(s)\<close> removes the longest run of the space character from both ends
  of \<open>s\<close>, and \<^verbatim>\<open>COALESCE(x, d)\<close> is \<open>x\<close> unless it is null. \<^verbatim>\<open>LOWER\<close> follows the locale
  and the encoding of the database, which the repository does not fix: it is a field of the
  engine below. In the C locale it is \<open>lower_ascii\<close>, which maps the ASCII capitals to
  small letters and keeps every other byte. \<^verbatim>\<open>TRIM\<close> and \<^verbatim>\<open>LOWER\<close> give null on null.
\<close>

definition TRIM :: "string \<Rightarrow> string" where
  "TRIM s = rev (dropWhile (\<lambda>c. c = CHR '' '') (rev (dropWhile (\<lambda>c. c = CHR '' '') s)))"

definition lower_char :: "char \<Rightarrow> char" where
  "lower_char c =
     (let n = (of_char c :: nat) in if 65 \<le> n \<and> n \<le> 90 then char_of (n + 32) else c)"

definition lower_ascii :: "string \<Rightarrow> string" where
  "lower_ascii s = map lower_char s"

definition COALESCE :: "'a option \<Rightarrow> 'a \<Rightarrow> 'a" where
  "COALESCE x d = (case x of None \<Rightarrow> d | Some v \<Rightarrow> v)"

subsection \<open>Statements\<close>

datatype stmt =
    TruncateStaging
  | AppendStagingPassengers frame
  | AppendStagingTickets frame
  | DeleteTickets
  | DeletePassengers
  | InsertPassengers
  | InsertTickets
  | Commit
  | SelectAnalytics

datatype sql_error = NotNullViolation | CardinalityViolation | Fault stmt

text \<open>
  \<^verbatim>\<open>INSERT ... ON CONFLICT (key) DO UPDATE SET\<close> every other column to the proposed value.
  The proposed rows are taken in order; \<open>seen\<close> holds the keys this statement has already
  written. A null key violates the primary key, and a key proposed twice by one statement
  is PostgreSQL's error "ON CONFLICT DO UPDATE command cannot affect row a second time".
  A row already in the table under the key is overwritten, otherwise the row is added.
\<close>

fun upsert :: "('r \<Rightarrow> int option) \<Rightarrow> int list \<Rightarrow> 'r list \<Rightarrow> 'r list \<Rightarrow> sql_error + 'r list" where
  "upsert key seen [] tbl = Inr tbl"
| "upsert key seen (x # xs) tbl =
     (case key x of
        None \<Rightarrow> Inl NotNullViolation
      | Some k \<Rightarrow>
          if k \<in> set seen then Inl CardinalityViolation
          else upsert key (k # seen) xs
                 (if Some k \<in> set (map key tbl)
                  then map (\<lambda>row. if key row = Some k then x else row) tbl
                  else tbl @ [x]))"

text \<open>
  The SQLAlchemy engine. What the repository does not fix is a parameter: \<open>faults\<close> says
  which statements fail, in which state, for a reason outside this model (a constraint of
  the schema such as a foreign key or a column type, an arithmetic overflow, a lost
  connection); \<open>sp_rows\<close> and \<open>st_rows\<close> are the rows that \<^verbatim>\<open>to_sql\<close> stores for a frame,
  \<open>sp_draws\<close> and \<open>st_draws\<close> the number of identity values these rows draw, and \<open>LOWER\<close>
  is the function \<^verbatim>\<open>LOWER\<close> of the database, under its locale and encoding.
\<close>

record engine =
  faults :: "stmt \<Rightarrow> db \<Rightarrow> bool"
  sp_rows :: "frame \<Rightarrow> sp_row list"
  st_rows :: "frame \<Rightarrow> st_row list"
  sp_draws :: "frame \<Rightarrow> nat"
  st_draws :: "frame \<Rightarrow> nat"
  LOWER :: "string \<Rightarrow> string"

text \<open>The select lists of the two \<^verbatim>\<open>INSERT ... SELECT\<close> statements; the first one is
  evaluated by the database of the engine.\<close>

definition select_passenger :: "engine \<Rightarrow> sp_row \<Rightarrow> passenger" where
  "select_passenger E r =
     \<lparr>p_passenger_id = sp_passenger_id r,
      p_name = map_option TRIM (sp_name r),
      p_sex = map_option (LOWER E) (sp_sex r),
      p_age = COALESCE (sp_age r) 30,
      p_family_size = COALESCE (sp_sibsp r) 0 + COALESCE (sp_parch r) 0 + 1,
      p_embarked = COALESCE (sp_embarked r) ''S''\<rparr>"

definition select_ticket :: "st_row \<Rightarrow> ticket" where
  "select_ticket r =
     \<lparr>t_ticket_id = st_ticket_id r,
      t_passenger_id = st_passenger_id r,
      t_ticket_number = st_ticket r,
      t_class = st_class r,
      t_cabin = st_cabin r\<rparr>"

definition execute :: "engine \<Rightarrow> stmt \<Rightarrow> db \<Rightarrow> sql_error + db" where
  "execute E s d =
     (if faults E s d then Inl (Fault s)
      else case s of
        TruncateStaging \<Rightarrow>
          Inr (d\<lparr>staging_passengers := [], staging_tickets := [],
                 sp_identity := 0, st_identity := 0\<rparr>)
      | AppendStagingPassengers df \<Rightarrow>
          Inr (d\<lparr>staging_passengers := staging_passengers d @ sp_rows E df,
                 sp_identity := sp_identity d + sp_draws E df\<rparr>)
      | AppendStagingTickets df \<Rightarrow>
          Inr (d\<lparr>staging_tickets := staging_tickets d @ st_rows E df,
                 st_identity := st_identity d + st_draws E df\<rparr>)
      | DeleteTickets \<Rightarrow> Inr (d\<lparr>tickets := []\<rparr>)
      | DeletePassengers \<Rightarrow> Inr (d\<lparr>passengers := []\<rparr>)
      | InsertPassengers \<Rightarrow>
          (case upsert p_passenger_id [] (map (select_passenger E) (staging_passengers d)) (passengers d) of
             Inl e \<Rightarrow> Inl e
           | Inr tbl \<Rightarrow> Inr (d\<lparr>passengers := tbl\<rparr>))
      | InsertTickets \<Rightarrow>
          (case upsert t_ticket_id [] (map select_ticket (staging_tickets d)) (tickets d) of
             Inl e \<Rightarrow> Inl e
           | Inr tbl \<Rightarrow> Inr (d\<lparr>tickets := tbl\<rparr>))
      | Commit \<Rightarrow> Inr d
      | SelectAnalytics \<Rightarrow> Inr d)"

text \<open>
  Statements run in order until one fails. The result carries the statements that were
  issued, the failing one included.
\<close>

fun run :: "engine \<Rightarrow> stmt list \<Rightarrow> db \<Rightarrow> stmt list \<times> (sql_error + db)" where
  "run E [] d = ([], Inr d)"
| "run E (s # ss) d =
     (case execute E s d of
        Inl e \<Rightarrow> ([s], Inl e)
      | Inr d' \<Rightarrow> (case run E ss d' of (issued, r) \<Rightarrow> (s # issued, r)))"

text \<open>
  \<^verbatim>\<open>with engine.begin() as conn:\<close> runs its body in one transaction: committed when the
  body ends, rolled back when a statement raises, and the exception then leaves the block.
  The result is the database afterwards, the statements issued and the error, if any.
\<close>

definition engine_begin :: "engine \<Rightarrow> stmt list \<Rightarrow> db \<Rightarrow> db \<times> stmt list \<times> sql_error option" where
  "engine_begin E body d =
     (case run E (body @ [Commit]) d of
        (issued, Inl e) \<Rightarrow> (d, issued, Some e)
      | (issued, Inr d') \<Rightarrow> (d', issued, None))"

section \<open>Staging loader and transform-and-promote\<close>

definition load_to_staging :: "engine \<Rightarrow> frame \<Rightarrow> frame \<Rightarrow> db \<Rightarrow> db \<times> stmt list \<times> sql_error option" where
  "load_to_staging E passengers_df tickets_df d =
     engine_begin E
       [TruncateStaging, AppendStagingPassengers passengers_df, AppendStagingTickets tickets_df] d"

definition transform_and_load :: "engine \<Rightarrow> db \<Rightarrow> db \<times> stmt list \<times> sql_error option" where
  "transform_and_load E d =
     engine_begin E [DeleteTickets, DeletePassengers, InsertPassengers, InsertTickets] d"

section \<open>The pipeline\<close>

text \<open>
  What a run meets outside the program: which paths exist, what \<^verbatim>\<open>pd.read_csv\<close> makes of
  a path (\<open>None\<close> when it raises), whether \<^verbatim>\<open>connect_db\<close> reaches the database, the engine
  it then returns, and whether rendering the report rows raises.
\<close>

record world =
  file_exists :: "string \<Rightarrow> bool"
  read_csv :: "string \<Rightarrow> frame option"
  connect_ok :: bool
  pg :: engine
  render_raises :: "db \<Rightarrow> bool"

datatype outcome = Completed | SysExit nat | Uncaught py_error | UncaughtSql sql_error | UncaughtRender

text \<open>A Python process ends with status 1 on an uncaught exception.\<close>

fun exit_code :: "outcome \<Rightarrow> nat" where
  "exit_code Completed = 0"
| "exit_code (SysExit n) = n"
| "exit_code (Uncaught e) = 1"
| "exit_code (UncaughtSql e) = 1"
| "exit_code UncaughtRender = 1"

datatype event =
    CheckPassengersPath
  | ConnectDb
  | ReadPassengersCsv
  | CheckTicketsPath
  | LoadTickets
  | CreateTickets
  | StagingLoad
  | Promote
  | Report

definition connect_db :: "world \<Rightarrow> nat + engine" where
  "connect_db W = (if connect_ok W then Inr (pg W) else Inl 1)"

definition show_analytics :: "world \<Rightarrow> engine \<Rightarrow> db \<Rightarrow> outcome" where
  "show_analytics W E d =
     (case execute E SelectAnalytics d of
        Inl e \<Rightarrow> UncaughtSql e
      | Inr d' \<Rightarrow> if render_raises W d' then UncaughtRender else Completed)"

text \<open>Python's truth value of the optional \<^verbatim>\<open>tickets_csv\<close>: false for None and for ''.\<close>

fun truthy :: "string option \<Rightarrow> bool" where
  "truthy None = False"
| "truthy (Some s) = (s \<noteq> [])"

text \<open>
  \<^verbatim>\<open>main(passengers_csv, tickets_csv)\<close>, started on the database \<open>d\<close>. The result is how the
  process ends, the steps it went through in order, and the database it leaves. The name
  \<^verbatim>\<open>load_and_prepare_tickets\<close> is bound nowhere in the program, so the call raises NameError.
\<close>

definition main :: "world \<Rightarrow> string \<Rightarrow> string option \<Rightarrow> db \<Rightarrow> outcome \<times> event list \<times> db" where
  "main W passengers_csv tickets_csv d =
     (if \<not> file_exists W passengers_csv then (SysExit 1, [CheckPassengersPath], d)
      else case connect_db W of
        Inl n \<Rightarrow> (SysExit n, [CheckPassengersPath, ConnectDb], d)
      | Inr E \<Rightarrow>
         (case load_and_prepare_passengers (read_csv W passengers_csv) of
            Inl n \<Rightarrow> (SysExit n, [CheckPassengersPath, ConnectDb, ReadPassengersCsv], d)
          | Inr passengers_df \<Rightarrow>
             (if truthy tickets_csv then
                (if \<not> file_exists W (the tickets_csv)
                 then (SysExit 1,
                       [CheckPassengersPath, ConnectDb, ReadPassengersCsv, CheckTicketsPath], d)
                 else (Uncaught (NameError ''load_and_prepare_tickets''),
                       [CheckPassengersPath, ConnectDb, ReadPassengersCsv, CheckTicketsPath,
                        LoadTickets], d))
              else
                (case create_tickets_df passengers_df of
                   Inl e \<Rightarrow>
                     (Uncaught e,
                      [CheckPassengersPath, ConnectDb, ReadPassengersCsv, CreateTickets], d)
                 | Inr tickets_df \<Rightarrow>
                    (case load_to_staging E passengers_df tickets_df d of
                       (d1, issued, Some e) \<Rightarrow>
                         (UncaughtSql e,
                          [CheckPassengersPath, ConnectDb, ReadPassengersCsv, CreateTickets,
                           StagingLoad], d1)
                     | (d1, issued, None) \<Rightarrow>
                        (case transform_and_load E d1 of
                           (d2, issued', Some e) \<Rightarrow>
                             (UncaughtSql e,
                              [CheckPassengersPath, ConnectDb, ReadPassengersCsv, CreateTickets,
                               StagingLoad, Promote], d2)
                         | (d2, issued', None) \<Rightarrow>
                             (show_analytics W E d2,
                              [CheckPassengersPath, ConnectDb, ReadPassengersCsv, CreateTickets,
                               StagingLoad, Promote, Report], d2)))))))"

text \<open>\<open>happens_before a b evs\<close>: \<open>a\<close> occurs in \<open>evs\<close> and \<open>b\<close> occurs after its first occurrence.\<close>

fun happens_before :: "'a \<Rightarrow> 'a \<Rightarrow> 'a list \<Rightarrow> bool" where
  "happens_before a b [] = False"
| "happens_before a b (x # xs) = (if x = a then b \<in> set xs else happens_before a b xs)"

section \<open>Reference notions and worked data\<close>



text \<open>The value of a decimal numeral, to read \<open>str\<close> back.\<close>

definition decimal_value :: "string \<Rightarrow> nat" where
  "decimal_value s = foldl (\<lambda>a c. 10 * a + (of_char c - 48)) 0 s"

text \<open>The two-passenger file of the specification's end-to-end scenario, with one
  column the pipeline does not know.\<close>

definition example_csv :: frame where
  "example_csv =
     \<lparr>columns =
        [(''PassengerId'', [IntV 1, IntV 2]),
         (''Name'', [StrV '' Alice '', StrV ''Bob'']),
         (''Sex'', [StrV ''Female'', StrV ''Male'']),
         (''Age'', [Null, NumV 40]),
         (''SibSp'', [IntV 1, IntV 0]),
         (''Parch'', [IntV 0, IntV 0]),
         (''Ticket'', [StrV ''A/5 21171'', StrV ''PC 17599'']),
         (''Embarked'', [StrV ''C'', Null])],
      nrows = 2\<rparr>"

text \<open>A file without an Age column, and one whose two rows share a PassengerId.\<close>

definition ageless_csv :: frame where
  "ageless_csv =
     \<lparr>columns = [(''PassengerId'', [IntV 1]), (''Name'', [StrV ''Alice''])], nrows = 1\<rparr>"

definition duplicate_csv :: frame where
  "duplicate_csv =
     \<lparr>columns =
        [(''PassengerId'', [IntV 1, IntV 1]),
         (''Name'', [StrV ''Alice'', StrV ''Bob'']),
         (''Age'', [Null, NumV 40])],
      nrows = 2\<rparr>"

definition example_passengers_df :: frame where
  "example_passengers_df =
     \<lparr>columns =
        [(''passenger_id'', [IntV 1, IntV 2]),
         (''name'', [StrV '' Alice '', StrV ''Bob'']),
         (''sex'', [StrV ''Female'', StrV ''Male'']),
         (''age'', [Null, NumV 40]),
         (''sibsp'', [IntV 1, IntV 0]),
         (''parch'', [IntV 0, IntV 0]),
         (''embarked'', [StrV ''C'', Null])],
      nrows = 2\<rparr>"

definition example_tickets_df :: frame where
  "example_tickets_df =
     \<lparr>columns =
        [(''ticket_id'', [IntV 1, IntV 2]),
         (''passenger_id'', [IntV 1, IntV 2]),
         (''ticket'', [StrV ''T1'', StrV ''T2'']),
         (''class'', [IntV 3, IntV 3]),
         (''cabin'', [StrV ''Unknown'', StrV ''Unknown''])],
      nrows = 2\<rparr>"

text \<open>A database left by an earlier run: one passenger and one ticket in every table.\<close>

definition old_passenger :: passenger where
  "old_passenger =
     \<lparr>p_passenger_id = Some 9, p_name = Some ''Carol'', p_sex = Some ''female'',
      p_age = 51, p_family_size = 1, p_embarked = ''Q''\<rparr>"

definition old_ticket :: ticket where
  "old_ticket =
     \<lparr>t_ticket_id = Some 9, t_passenger_id = Some 9, t_ticket_number = Some ''T1'',
      t_class = Some 3, t_cabin = Some ''Unknown''\<rparr>"

definition old_sp_row :: sp_row where
  "old_sp_row =
     \<lparr>sp_passenger_id = Some 9, sp_name = Some ''Carol'', sp_sex = Some ''Female'',
      sp_age = Some 51, sp_sibsp = Some 0, sp_parch = Some 0, sp_fare = None,
      sp_embarked = Some ''Q''\<rparr>"

definition old_st_row :: st_row where
  "old_st_row =
     \<lparr>st_ticket_id = Some 9, st_passenger_id = Some 9, st_ticket = Some ''T1'',
      st_class = Some 3, st_cabin = Some ''Unknown''\<rparr>"

definition old_db :: db where
  "old_db =
     \<lparr>staging_passengers = [old_sp_row], staging_tickets = [old_st_row],
      sp_identity = 1, st_identity = 1,
      passengers = [old_passenger], tickets = [old_ticket]\<rparr>"




text \<open>The example batch once staged, and once promoted.\<close>

definition alice_sp_row :: sp_row where
  "alice_sp_row =
     \<lparr>sp_passenger_id = Some 1, sp_name = Some '' Alice '', sp_sex = Some ''Female'',
      sp_age = None, sp_sibsp = Some 1, sp_parch = Some 0, sp_fare = None,
      sp_embarked = Some ''C''\<rparr>"

definition bob_sp_row :: sp_row where
  "bob_sp_row =
     \<lparr>sp_passenger_id = Some 2, sp_name = Some ''Bob'', sp_sex = Some ''Male'',
      sp_age = Some 40, sp_sibsp = Some 0, sp_parch = Some 0, sp_fare = None,
      sp_embarked = None\<rparr>"

definition example_st_rows :: "st_row list" where
  "example_st_rows =
     [\<lparr>st_ticket_id = Some 1, st_passenger_id = Some 1, st_ticket = Some ''T1'',
       st_class = Some 3, st_cabin = Some ''Unknown''\<rparr>,
      \<lparr>st_ticket_id = Some 2, st_passenger_id = Some 2, st_ticket = Some ''T2'',
       st_class = Some 3, st_cabin = Some ''Unknown''\<rparr>]"

definition example_staged_db :: db where
  "example_staged_db =
     \<lparr>staging_passengers = [alice_sp_row, bob_sp_row], staging_tickets = example_st_rows,
      sp_identity = 0, st_identity = 0,
      passengers = [old_passenger], tickets = [old_ticket]\<rparr>"

definition alice_passenger :: passenger where
  "alice_passenger =
     \<lparr>p_passenger_id = Some 1, p_name = Some ''Alice'', p_sex = Some ''female'',
      p_age = 30, p_family_size = 2, p_embarked = ''C''\<rparr>"

definition bob_passenger :: passenger where
  "bob_passenger =
     \<lparr>p_passenger_id = Some 2, p_name = Some ''Bob'', p_sex = Some ''male'',
      p_age = 40, p_family_size = 1, p_embarked = ''S''\<rparr>"

definition example_tickets :: "ticket list" where
  "example_tickets =
     [\<lparr>t_ticket_id = Some 1, t_passenger_id = Some 1, t_ticket_number = Some ''T1'',
       t_class = Some 3, t_cabin = Some ''Unknown''\<rparr>,
      \<lparr>t_ticket_id = Some 2, t_passenger_id = Some 2, t_ticket_number = Some ''T2'',
       t_class = Some 3, t_cabin = Some ''Unknown''\<rparr>]"

definition example_final_db :: db where
  "example_final_db =
     \<lparr>staging_passengers = [alice_sp_row, bob_sp_row], staging_tickets = example_st_rows,
      sp_identity = 0, st_identity = 0,
      passengers = [alice_passenger, bob_passenger], tickets = example_tickets\<rparr>"

text \<open>The batches made from the file whose rows share a PassengerId, and their rows.\<close>

definition twice_passengers_df :: frame where
  "twice_passengers_df =
     \<lparr>columns =
        [(''passenger_id'', [IntV 1, IntV 1]),
         (''name'', [StrV ''Alice'', StrV ''Bob'']),
         (''age'', [Null, NumV 40])],
      nrows = 2\<rparr>"

definition twice_tickets_df :: frame where
  "twice_tickets_df =
     \<lparr>columns =
        [(''ticket_id'', [IntV 1, IntV 1]),
         (''passenger_id'', [IntV 1, IntV 1]),
         (''ticket'', [StrV ''T1'', StrV ''T2'']),
         (''class'', [IntV 3, IntV 3]),
         (''cabin'', [StrV ''Unknown'', StrV ''Unknown''])],
      nrows = 2\<rparr>"

definition twice_sp_rows :: "sp_row list" where
  "twice_sp_rows =
     [\<lparr>sp_passenger_id = Some 1, sp_name = Some ''Alice'', sp_sex = None, sp_age = None,
       sp_sibsp = None, sp_parch = None, sp_fare = None, sp_embarked = None\<rparr>,
      \<lparr>sp_passenger_id = Some 1, sp_name = Some ''Bob'', sp_sex = None, sp_age = Some 40,
       sp_sibsp = None, sp_parch = None, sp_fare = None, sp_embarked = None\<rparr>]"

definition twice_st_rows :: "st_row list" where
  "twice_st_rows =
     [\<lparr>st_ticket_id = Some 1, st_passenger_id = Some 1, st_ticket = Some ''T1'',
       st_class = Some 3, st_cabin = Some ''Unknown''\<rparr>,
      \<lparr>st_ticket_id = Some 1, st_passenger_id = Some 1, st_ticket = Some ''T2'',
       st_class = Some 3, st_cabin = Some ''Unknown''\<rparr>]"


text \<open>
  The engine of the worked examples, given on the batches above only. It stores each of
  them as it is, an integer as that integer, a text as that text and a missing value or a
  missing column as null, and it refuses every other batch. Its staging tables have no
  identity column, nothing else fails, and its database is in the C locale.
\<close>

definition example_engine :: engine where
  "example_engine =
     \<lparr>faults =
        (\<lambda>s d. case s of
                 AppendStagingPassengers df \<Rightarrow>
                   df \<notin> set [example_passengers_df, twice_passengers_df]
               | AppendStagingTickets df \<Rightarrow> df \<notin> set [example_tickets_df, twice_tickets_df]
               | _ \<Rightarrow> False),
      sp_rows =
        (\<lambda>df. if df = example_passengers_df then [alice_sp_row, bob_sp_row]
              else if df = twice_passengers_df then twice_sp_rows
              else []),
      st_rows =
        (\<lambda>df. if df = example_tickets_df then example_st_rows
              else if df = twice_tickets_df then twice_st_rows
              else []),
      sp_draws = (\<lambda>df. 0), st_draws = (\<lambda>df. 0),
      LOWER = lower_ascii\<rparr>"

text \<open>Worlds: every file named \<^verbatim>\<open>*.csv\<close> below exists; the database is reachable.\<close>

definition example_world :: world where
  "example_world =
     \<lparr>file_exists = (\<lambda>p. p \<in> set [''titanic.csv'', ''ageless.csv'', ''twice.csv'', ''tickets.csv'']),
      read_csv = (\<lambda>p. if p = ''titanic.csv'' then Some example_csv
                      else if p = ''ageless.csv'' then Some ageless_csv
                      else if p = ''twice.csv'' then Some duplicate_csv
                      else None),
      connect_ok = True,
      pg = example_engine,
      render_raises = (\<lambda>d. False)\<rparr>"

text \<open>An engine on which appending to the staging tickets fails, and a world whose
  database cannot be reached.\<close>

definition faulty_engine :: engine where
  "faulty_engine =
     example_engine\<lparr>faults := (\<lambda>s d. case s of AppendStagingTickets df \<Rightarrow> True | _ \<Rightarrow> False)\<rparr>"

definition offline_world :: world where
  "offline_world = example_world\<lparr>connect_ok := False\<rparr>"


section \<open>Properties of the normalizer\<close>

lemma decimal_value_append:
  "decimal_value (s @ [c]) = 10 * decimal_value s + (of_char c - 48)"
  by (simp add: decimal_value_def)

lemma of_char_digit: "d < 10 \<Longrightarrow> (of_char (digit d) :: nat) = 48 + d"
  by (simp add: digit_def)

lemma decimal_value_str: "decimal_value (str n) = n"
proof (induction n rule: str.induct)
  case (1 n)
  show ?case
  proof (cases "n < 10")
    case True
    then show ?thesis
      by (subst str.simps) (simp add: decimal_value_def of_char_digit)
  next
    case False
    with 1 have ih: "decimal_value (str (n div 10)) = n div 10" by simp
    have "n mod 10 < 10" by simp
    then have "(of_char (digit (n mod 10)) :: nat) - 48 = n mod 10"
      by (simp add: of_char_digit)
    with False ih show ?thesis
      by (subst str.simps) (simp add: decimal_value_append)
  qed
qed

lemma str_inj: "str m = str n \<Longrightarrow> m = n"
  by (metis decimal_value_str)

lemma column_names_rename:
  "column_names (rename m df) =
     map (\<lambda>c. case map_of m c of Some c' \<Rightarrow> c' | None \<Rightarrow> c) (column_names df)"
  by (simp add: rename_def column_names_def comp_def)

lemma getitem_list_present:
  "set labels \<subseteq> set (column_names df) \<Longrightarrow>
     getitem_list labels df =
       Inr (df\<lparr>columns := concat (map (\<lambda>l. filter (\<lambda>cv. fst cv = l) (columns df)) labels)\<rparr>)"
proof -
  assume "set labels \<subseteq> set (column_names df)"
  then have "filter (\<lambda>l. l \<notin> set (column_names df)) labels = []"
    by (auto simp: filter_empty_conv)
  then show ?thesis by (simp add: getitem_list_def)
qed

lemma column_names_select:
  "set (column_names (df\<lparr>columns := concat (map (\<lambda>l. filter (\<lambda>cv. fst cv = l) (columns df)) labels)\<rparr>))
     = set labels \<inter> set (column_names df)"
  by (auto simp: column_names_def)


lemma age_canonical: "''age'' \<in> set (map snd column_map)"
  by (simp add: column_map_def)

lemma rename_label_age:
  "(case map_of column_map c of Some c' \<Rightarrow> c' | None \<Rightarrow> c) = ''age'' \<longleftrightarrow> c = ''Age'' \<or> c = ''age''"
  by (simp add: column_map_def)

lemma age_after_rename:
  "''age'' \<in> set (column_names (rename column_map df0)) \<longleftrightarrow>
     ''Age'' \<in> set (column_names df0) \<or> ''age'' \<in> set (column_names df0)"
proof -
  have "''age'' \<in> set (column_names (rename column_map df0)) \<longleftrightarrow>
     (\<exists>c \<in> set (column_names df0). (case map_of column_map c of Some c' \<Rightarrow> c' | None \<Rightarrow> c) = ''age'')"
    unfolding column_names_rename by (simp only: set_map image_iff) metis
  also have "\<dots> \<longleftrightarrow> (\<exists>c \<in> set (column_names df0). c = ''Age'' \<or> c = ''age'')"
    by (simp only: rename_label_age)
  also have "\<dots> \<longleftrightarrow> ''Age'' \<in> set (column_names df0) \<or> ''age'' \<in> set (column_names df0)"
    by blast
  finally show ?thesis .
qed


lemma load_and_prepare_passengers_Some:
  "load_and_prepare_passengers (Some df0) =
     (if ''age'' \<in> set (column_names (rename column_map df0))
      then Inr ((rename column_map df0)
             \<lparr>columns := concat (map (\<lambda>l. filter (\<lambda>cv. fst cv = l) (columns (rename column_map df0)))
                 (filter (\<lambda>v. v \<in> set (column_names (rename column_map df0))) (map snd column_map)))\<rparr>)
      else Inl 1)"
proof -
  define df1 where "df1 = rename column_map df0"
  define labels where "labels = filter (\<lambda>v. v \<in> set (column_names df1)) (map snd column_map)"
  define df2 where "df2 = df1\<lparr>columns := concat (map (\<lambda>l. filter (\<lambda>cv. fst cv = l) (columns df1)) labels)\<rparr>"
  have "set labels \<subseteq> set (column_names df1)" by (simp add: labels_def subset_iff)
  then have g: "getitem_list labels df1 = Inr df2"
    unfolding df2_def by (rule getitem_list_present)
  have n: "set (column_names df2) = set labels \<inter> set (column_names df1)"
    unfolding df2_def by (rule column_names_select)
  have a: "''age'' \<in> set (column_names df2) \<longleftrightarrow> ''age'' \<in> set (column_names df1)"
    unfolding n labels_def using age_canonical by simp
  have "load_and_prepare_passengers (Some df0) =
          (case getitem_list labels df1 of Inl e \<Rightarrow> Inl 1
           | Inr df2 \<Rightarrow> (case getitem ''age'' df2 of Inl e \<Rightarrow> Inl 1 | Inr m \<Rightarrow> Inr df2))"
    unfolding load_and_prepare_passengers_def Let_def labels_def df1_def by (simp only: option.case)
  also have "\<dots> = (case getitem ''age'' df2 of Inl e \<Rightarrow> Inl 1 | Inr m \<Rightarrow> Inr df2)"
    by (simp only: g sum.case)
  also have "\<dots> = (if ''age'' \<in> set (column_names df1) then Inr df2 else Inl 1)"
    unfolding getitem_def a [symmetric] by simp
  finally show ?thesis unfolding df2_def labels_def df1_def .
qed

lemma load_and_prepare_passengers_fails_iff:
  "load_and_prepare_passengers (Some df0) = Inl 1 \<longleftrightarrow>
     ''Age'' \<notin> set (column_names df0) \<and> ''age'' \<notin> set (column_names df0)"
  unfolding load_and_prepare_passengers_Some age_after_rename by simp

lemma load_and_prepare_passengers_columns:
  assumes "load_and_prepare_passengers csv = Inr df"
  shows "set (column_names df) \<subseteq> set canonical_columns" and "''age'' \<in> set (column_names df)"
proof -
  from assms obtain df0 where c: "csv = Some df0"
    by (cases csv) (simp_all add: load_and_prepare_passengers_def)
  define df1 where "df1 = rename column_map df0"
  define labels where "labels = filter (\<lambda>v. v \<in> set (column_names df1)) (map snd column_map)"
  from assms c have "load_and_prepare_passengers (Some df0) = Inr df" by simp
  from this [unfolded load_and_prepare_passengers_Some]
  have age: "''age'' \<in> set (column_names df1)"
    and df: "df = df1\<lparr>columns := concat (map (\<lambda>l. filter (\<lambda>cv. fst cv = l) (columns df1)) labels)\<rparr>"
    unfolding df1_def labels_def
    by (simp_all split: if_splits)
  have n: "set (column_names df) = set labels \<inter> set (column_names df1)"
    unfolding df by (rule column_names_select)
  have l: "set labels \<subseteq> set (map snd column_map)" by (simp add: labels_def subset_iff)
  from n l show "set (column_names df) \<subseteq> set canonical_columns"
    unfolding canonical_columns_def by blast
  from age age_canonical have "''age'' \<in> set labels" by (simp add: labels_def)
  with n age show "''age'' \<in> set (column_names df)" by simp
qed

lemma load_and_prepare_passengers_None: "load_and_prepare_passengers None = Inl 1"
  by (simp add: load_and_prepare_passengers_def)

lemma load_and_prepare_passengers_parsed:
  "load_and_prepare_passengers csv = Inr df \<Longrightarrow> \<exists>df0. csv = Some df0"
  by (cases csv) (simp_all add: load_and_prepare_passengers_None)

lemma load_and_prepare_passengers_exit:
  "load_and_prepare_passengers csv = Inl n \<Longrightarrow> n = 1"
  by (auto simp: load_and_prepare_passengers_def Let_def split: option.splits sum.splits)

lemma load_and_prepare_passengers_example:
  "load_and_prepare_passengers (Some example_csv) = Inr example_passengers_df"
  by code_simp

text \<open>
  Claim C4. The normalizer keeps only the canonical columns
  (\<open>load_and_prepare_passengers_columns\<close>), but it does not tolerate every missing column:
  on a parseable file without an Age column the lookup of \<^verbatim>\<open>df['age']\<close> for the log line
  raises, and the function ends the run with status 1. By
  \<open>load_and_prepare_passengers_fails_iff\<close> this is the only way a parsed file is refused.
\<close>

theorem load_and_prepare_passengers_without_age:
  "load_and_prepare_passengers (Some ageless_csv) = Inl 1"
  by code_simp

text \<open>
  Claim C3. Without a tickets file, \<^verbatim>\<open>create_tickets_df\<close> builds the ticket batch from a
  passenger batch that has one \<^verbatim>\<open>passenger_id\<close> column: as many tickets as passengers, in
  the passengers' row order, and in row \<open>i\<close> (counted from 0) the ticket id and the
  passenger id of passenger \<open>i\<close>, the ticket number \<^verbatim>\<open>T\<close> followed by the decimal numeral
  of \<open>i + 1\<close>, the class 3 and the cabin \<^verbatim>\<open>Unknown\<close>.
\<close>

theorem create_tickets_df_rows:
  assumes wf: "wf_frame passengers_df"
    and one: "length (filter (\<lambda>cv. fst cv = ''passenger_id'') (columns passengers_df)) = 1"
  shows "\<exists>tickets_df.
           create_tickets_df passengers_df = Inr tickets_df \<and>
           wf_frame tickets_df \<and>
           nrows tickets_df = nrows passengers_df \<and>
           column_names tickets_df = [''ticket_id'', ''passenger_id'', ''ticket'', ''class'', ''cabin''] \<and>
           (\<forall>i < nrows passengers_df.
              row_cells tickets_df i ''ticket_id'' = row_cells passengers_df i ''passenger_id'' \<and>
              row_cells tickets_df i ''passenger_id'' = row_cells passengers_df i ''passenger_id'' \<and>
              row_cells tickets_df i ''ticket'' = [StrV (''T'' @ str (i + 1))] \<and>
              row_cells tickets_df i ''class'' = [IntV 3] \<and>
              row_cells tickets_df i ''cabin'' = [StrV ''Unknown''])"
proof -
  from one obtain cv where cv: "filter (\<lambda>cv. fst cv = ''passenger_id'') (columns passengers_df) = [cv]"
    by (cases "filter (\<lambda>cv. fst cv = ''passenger_id'') (columns passengers_df)") auto
  then have "cv \<in> set (filter (\<lambda>cv. fst cv = ''passenger_id'') (columns passengers_df))" by simp
  then have mem: "cv \<in> set (columns passengers_df)" and lab: "fst cv = ''passenger_id''" by auto
  from mem wf have len: "length (snd cv) = nrows passengers_df"
    by (auto simp: wf_frame_def list_all_iff)
  from mem lab have "''passenger_id'' \<in> set (column_names passengers_df)"
    by (force simp: column_names_def)
  with cv have g: "getitem ''passenger_id'' passengers_df = Inr [snd cv]"
    by (simp add: getitem_def)
  define n where "n = nrows passengers_df"
  define t where "t = \<lparr>columns =
                 [(''ticket_id'', snd cv),
                  (''passenger_id'', snd cv),
                  (''ticket'', map (\<lambda>i. StrV (''T'' @ str i)) [1..<n + 1]),
                  (''class'', replicate n (IntV 3)),
                  (''cabin'', replicate n (StrV ''Unknown''))],
               nrows = n\<rparr>"
  from g have c: "create_tickets_df passengers_df = Inr t"
    by (simp add: create_tickets_df_def t_def n_def)
  have w: "wf_frame t" using len by (simp add: wf_frame_def t_def n_def)
  have m: "nrows t = nrows passengers_df" by (simp add: t_def n_def)
  have l: "column_names t = [''ticket_id'', ''passenger_id'', ''ticket'', ''class'', ''cabin'']"
    by (simp add: column_names_def t_def)
  have p: "row_cells passengers_df i ''passenger_id'' = [snd cv ! i]" for i
    using cv by (simp add: row_cells_def)
  have r1: "row_cells t i ''ticket_id'' = row_cells passengers_df i ''passenger_id''" for i
    by (simp add: p) (simp add: row_cells_def t_def)
  have r2: "row_cells t i ''passenger_id'' = row_cells passengers_df i ''passenger_id''" for i
    by (simp add: p) (simp add: row_cells_def t_def)
  have r3: "row_cells t i ''ticket'' = [StrV (''T'' @ str (i + 1))]" if "i < n" for i
  proof -
    have "[1..<n + 1] ! i = i + 1" using that by (simp add: nth_upt del: upt_Suc)
    moreover have "i < length [1..<n + 1]" using that by simp
    ultimately have "map (\<lambda>i. StrV (''T'' @ str i)) [1..<n + 1] ! i = StrV (''T'' @ str (i + 1))"
      by (simp only: nth_map)
    then show ?thesis by (simp add: row_cells_def t_def del: upt_Suc)
  qed
  have r4: "row_cells t i ''class'' = [IntV 3]" if "i < n" for i
    using that by (simp add: row_cells_def t_def)
  have r5: "row_cells t i ''cabin'' = [StrV ''Unknown'']" if "i < n" for i
    using that by (simp add: row_cells_def t_def)
  show ?thesis
    using c w m l r1 r2 r3 r4 r5 unfolding n_def by blast
qed

text \<open>The two passengers of the example give the tickets \<^verbatim>\<open>T1\<close> and \<^verbatim>\<open>T2\<close>.\<close>

theorem create_tickets_df_rows_witness:
  "wf_frame example_passengers_df \<and>
   length (filter (\<lambda>cv. fst cv = ''passenger_id'') (columns example_passengers_df)) = 1 \<and>
   create_tickets_df example_passengers_df = Inr example_tickets_df \<and>
   (\<exists>tickets_df.
           create_tickets_df example_passengers_df = Inr tickets_df \<and>
           wf_frame tickets_df \<and>
           nrows tickets_df = nrows example_passengers_df \<and>
           column_names tickets_df = [''ticket_id'', ''passenger_id'', ''ticket'', ''class'', ''cabin''] \<and>
           (\<forall>i < nrows example_passengers_df.
              row_cells tickets_df i ''ticket_id'' = row_cells example_passengers_df i ''passenger_id'' \<and>
              row_cells tickets_df i ''passenger_id'' = row_cells example_passengers_df i ''passenger_id'' \<and>
              row_cells tickets_df i ''ticket'' = [StrV (''T'' @ str (i + 1))] \<and>
              row_cells tickets_df i ''class'' = [IntV 3] \<and>
              row_cells tickets_df i ''cabin'' = [StrV ''Unknown'']))"
proof -
  have h1: "wf_frame example_passengers_df"
    by (simp add: wf_frame_def example_passengers_df_def)
  have h2: "length (filter (\<lambda>cv. fst cv = ''passenger_id'') (columns example_passengers_df)) = 1"
    by (simp add: example_passengers_df_def)
  have e: "create_tickets_df example_passengers_df = Inr example_tickets_df"
    by code_simp
  from h1 h2 e create_tickets_df_rows [OF h1 h2] show ?thesis by blast
qed

section \<open>Properties of the SQL functions\<close>

text \<open>
  \<open>TRIM\<close> removes spaces only, from both ends, and leaves no space at either end;
  \<open>lower_ascii\<close> leaves no ASCII capital.
\<close>

lemma TRIM_decompose:
  "\<exists>a b. s = a @ TRIM s @ b \<and> set a \<subseteq> {CHR '' ''} \<and> set b \<subseteq> {CHR '' ''}"
proof -
  let ?P = "\<lambda>c. c = CHR '' ''"
  let ?t = "dropWhile ?P s"
  let ?a = "takeWhile ?P s"
  let ?b = "rev (takeWhile ?P (rev ?t))"
  have "?t = rev (rev ?t)" by simp
  also have "\<dots> = rev (takeWhile ?P (rev ?t) @ dropWhile ?P (rev ?t))"
    by (simp only: takeWhile_dropWhile_id)
  also have "\<dots> = rev (dropWhile ?P (rev ?t)) @ ?b" by (simp only: rev_append)
  finally have t: "?t = TRIM s @ ?b" by (simp only: TRIM_def)
  have "s = ?a @ ?t" by simp
  with t have "s = ?a @ TRIM s @ ?b" by simp
  moreover have "set ?a \<subseteq> {CHR '' ''}" by (auto dest: set_takeWhileD)
  moreover have "set ?b \<subseteq> {CHR '' ''}" by (auto dest: set_takeWhileD)
  ultimately show ?thesis by blast
qed


lemma TRIM_no_outer_space:
  assumes "TRIM s \<noteq> []"
  shows "hd (TRIM s) \<noteq> CHR '' '' \<and> last (TRIM s) \<noteq> CHR '' ''"
proof -
  let ?P = "\<lambda>c. c = CHR '' ''"
  let ?t = "dropWhile ?P s"
  let ?u = "dropWhile ?P (rev ?t)"
  from assms have u: "?u \<noteq> []" by (simp only: TRIM_def rev_is_Nil_conv not_False_eq_True)
  have t: "?t \<noteq> []"
  proof
    assume "?t = []"
    then have "?u = []" by (simp only: rev.simps(1) dropWhile.simps(1))
    with u show False by blast
  qed
  have T: "TRIM s = rev ?u" by (simp only: TRIM_def)
  have l: "last (TRIM s) = hd ?u" unfolding T using u by (simp only: last_rev)
  have h: "hd (TRIM s) = last ?u" unfolding T using u by (simp only: hd_rev)
  have "rev ?t = takeWhile ?P (rev ?t) @ ?u" by (simp only: takeWhile_dropWhile_id)
  then have "last (rev ?t) = last ?u" using u by (metis last_appendR)
  moreover have "last (rev ?t) = hd ?t" using t by (simp only: last_rev)
  ultimately have h': "hd (TRIM s) = hd ?t" using h by simp
  have "\<not> ?P (hd ?u)" using u by (rule hd_dropWhile)
  moreover have "\<not> ?P (hd ?t)" using t by (rule hd_dropWhile)
  ultimately show ?thesis using l h' by simp
qed

lemma lower_ascii_length: "length (lower_ascii s) = length s"
  by (simp add: lower_ascii_def)


lemma lower_char_not_capital:
  "\<not> (65 \<le> (of_char (lower_char c) :: nat) \<and> (of_char (lower_char c) :: nat) \<le> 90)"
proof (cases "65 \<le> (of_char c :: nat) \<and> (of_char c :: nat) \<le> 90")
  case True
  then have "lower_char c = char_of ((of_char c :: nat) + 32)"
    by (simp add: lower_char_def Let_def)
  moreover from True have "((of_char c :: nat) + 32) mod 256 = of_char c + 32" by simp
  ultimately have "(of_char (lower_char c) :: nat) = of_char c + 32" by simp
  with True show ?thesis by simp
next
  case False
  then have "lower_char c = c" unfolding lower_char_def Let_def by (simp only: if_False)
  with False show ?thesis by simp
qed

lemma lower_ascii_no_capital:
  "c \<in> set (lower_ascii s) \<Longrightarrow> \<not> (65 \<le> (of_char c :: nat) \<and> (of_char c :: nat) \<le> 90)"
  using lower_char_not_capital by (auto simp: lower_ascii_def)

lemma select_passenger_cong:
  assumes "LOWER E' = LOWER E"
  shows "select_passenger E' = select_passenger E"
proof
  fix r
  show "select_passenger E' r = select_passenger E r"
    by (simp only: select_passenger_def assms)
qed


section \<open>Properties of the statements\<close>

text \<open>
  When every key of the table has already been written by the statement (in particular
  when the table is empty), an upsert that succeeds has added the proposed rows as they
  are, and it succeeds exactly when their keys are distinct, not null and new.
\<close>

lemma upsert_fresh:
  "upsert key seen xs tbl = Inr tbl' \<Longrightarrow> set (map key tbl) \<subseteq> Some ` set seen \<Longrightarrow>
   tbl' = tbl @ xs \<and> distinct (map key xs) \<and> set (map key xs) \<subseteq> Some ` (- set seen)"
proof (induction xs arbitrary: seen tbl)
  case Nil
  then show ?case by simp
next
  case (Cons x xs)
  from Cons.prems(1) obtain k where k: "key x = Some k" "k \<notin> set seen"
    by (auto split: option.splits if_splits)
  with Cons.prems(2) have fresh: "Some k \<notin> set (map key tbl)" by auto
  with Cons.prems(1) k have step: "upsert key (k # seen) xs (tbl @ [x]) = Inr tbl'"
    by simp
  have inv: "set (map key (tbl @ [x])) \<subseteq> Some ` set (k # seen)"
    using Cons.prems(2) k by auto
  from Cons.IH [OF step inv] k show ?case by auto
qed

lemma upsert_fresh_ok:
  "distinct (map key xs) \<Longrightarrow> set (map key xs) \<subseteq> Some ` (- set seen) \<Longrightarrow>
   set (map key tbl) \<subseteq> Some ` set seen \<Longrightarrow> upsert key seen xs tbl = Inr (tbl @ xs)"
proof (induction xs arbitrary: seen tbl)
  case Nil
  then show ?case by simp
next
  case (Cons x xs)
  from Cons.prems(2) obtain k where k: "key x = Some k" "k \<notin> set seen" by auto
  with Cons.prems(3) have fresh: "Some k \<notin> set (map key tbl)" by auto
  have d: "distinct (map key xs)" using Cons.prems(1) by simp
  have s: "set (map key xs) \<subseteq> Some ` (- set (k # seen))"
  proof
    fix y assume y: "y \<in> set (map key xs)"
    with Cons.prems(2) obtain j where j: "y = Some j" "j \<notin> set seen" by auto
    have "Some k \<notin> set (map key xs)" using Cons.prems(1) k by simp
    with y have "y \<noteq> Some k" by blast
    with j show "y \<in> Some ` (- set (k # seen))" by auto
  qed
  have inv: "set (map key (tbl @ [x])) \<subseteq> Some ` set (k # seen)"
    using Cons.prems(3) k by auto
  from Cons.IH [OF d s inv] k fresh show ?case by simp
qed


lemma upsert_cleared:
  "upsert key [] xs [] = Inr tbl \<Longrightarrow> tbl = xs \<and> distinct (map key xs) \<and> None \<notin> set (map key xs)"
  using upsert_fresh [of key "[]" xs "[]" tbl] by auto

lemma execute_DeleteTickets:
  "execute E DeleteTickets d = Inr d' \<longleftrightarrow> \<not> faults E DeleteTickets d \<and> d' = d\<lparr>tickets := []\<rparr>"
  by (auto simp: execute_def)

lemma execute_DeletePassengers:
  "execute E DeletePassengers d = Inr d' \<longleftrightarrow> \<not> faults E DeletePassengers d \<and> d' = d\<lparr>passengers := []\<rparr>"
  by (auto simp: execute_def)

lemma execute_InsertPassengers:
  "execute E InsertPassengers d = Inr d' \<longleftrightarrow>
     \<not> faults E InsertPassengers d \<and>
     (\<exists>tbl. upsert p_passenger_id [] (map (select_passenger E) (staging_passengers d)) (passengers d) = Inr tbl
            \<and> d' = d\<lparr>passengers := tbl\<rparr>)"
  by (auto simp: execute_def split: sum.splits)

lemma execute_InsertTickets:
  "execute E InsertTickets d = Inr d' \<longleftrightarrow>
     \<not> faults E InsertTickets d \<and>
     (\<exists>tbl. upsert t_ticket_id [] (map select_ticket (staging_tickets d)) (tickets d) = Inr tbl
            \<and> d' = d\<lparr>tickets := tbl\<rparr>)"
  by (auto simp: execute_def split: sum.splits)

lemma execute_Commit:
  "execute E Commit d = Inr d' \<longleftrightarrow> \<not> faults E Commit d \<and> d' = d"
  by (auto simp: execute_def)

lemma run_Cons_Inr:
  "run E (s # ss) d = (issued, Inr d') \<longleftrightarrow>
     (\<exists>d1 rest. execute E s d = Inr d1 \<and> run E ss d1 = (rest, Inr d') \<and> issued = s # rest)"
  by (auto split: sum.splits prod.splits)

lemma run_Nil_Inr: "run E [] d = (issued, Inr d') \<longleftrightarrow> issued = [] \<and> d' = d"
  by auto

lemma engine_begin_None:
  "engine_begin E body d = (d', issued, None) \<longleftrightarrow> run E (body @ [Commit]) d = (issued, Inr d')"
  by (auto simp: engine_begin_def split: sum.splits prod.splits)

lemma engine_begin_Some:
  "engine_begin E body d = (d', issued, Some e) \<longleftrightarrow> d' = d \<and> run E (body @ [Commit]) d = (issued, Inl e)"
  by (auto simp: engine_begin_def split: sum.splits prod.splits)

lemma transform_and_load_ok:
  assumes "transform_and_load E d = (d', issued, None)"
  shows "d' = d\<lparr>passengers := map (select_passenger E) (staging_passengers d),
                  tickets := map select_ticket (staging_tickets d)\<rparr>"
    and "issued = [DeleteTickets, DeletePassengers, InsertPassengers, InsertTickets, Commit]"
    and "distinct (map sp_passenger_id (staging_passengers d))"
    and "None \<notin> set (map sp_passenger_id (staging_passengers d))"
    and "distinct (map st_ticket_id (staging_tickets d))"
    and "None \<notin> set (map st_ticket_id (staging_tickets d))"
proof -
  from assms obtain d1 d2 d3 d4 where
    e1: "execute E DeleteTickets d = Inr d1" and
    e2: "execute E DeletePassengers d1 = Inr d2" and
    e3: "execute E InsertPassengers d2 = Inr d3" and
    e4: "execute E InsertTickets d3 = Inr d4" and
    e5: "execute E Commit d4 = Inr d'" and
    i: "issued = [DeleteTickets, DeletePassengers, InsertPassengers, InsertTickets, Commit]"
    unfolding transform_and_load_def engine_begin_None
    by (auto simp: run_Cons_Inr run_Nil_Inr simp del: run.simps)
  from e1 have d1: "d1 = d\<lparr>tickets := []\<rparr>" by (simp add: execute_DeleteTickets)
  from e2 have d2: "d2 = d1\<lparr>passengers := []\<rparr>" by (simp add: execute_DeletePassengers)
  from e3 d2 d1 obtain P where
    P: "upsert p_passenger_id [] (map (select_passenger E) (staging_passengers d)) [] = Inr P"
    and d3: "d3 = d2\<lparr>passengers := P\<rparr>"
    by (auto simp: execute_InsertPassengers)
  from e4 d3 d2 d1 obtain T where
    T: "upsert t_ticket_id [] (map select_ticket (staging_tickets d)) [] = Inr T"
    and d4: "d4 = d3\<lparr>tickets := T\<rparr>"
    by (auto simp: execute_InsertTickets)
  from e5 have d5: "d' = d4" by (simp add: execute_Commit)
  note uP = upsert_cleared [OF P] and uT = upsert_cleared [OF T]
  have kp: "map p_passenger_id (map (select_passenger E) xs) = map sp_passenger_id xs" for xs
    by (simp add: select_passenger_def)
  have kt: "map t_ticket_id (map select_ticket xs) = map st_ticket_id xs" for xs
    by (simp add: select_ticket_def)
  show "d' = d\<lparr>passengers := map (select_passenger E) (staging_passengers d),
                  tickets := map select_ticket (staging_tickets d)\<rparr>"
    using d1 d2 d3 d4 d5 uP uT by simp
  show "issued = [DeleteTickets, DeletePassengers, InsertPassengers, InsertTickets, Commit]" by (rule i)
  show "distinct (map sp_passenger_id (staging_passengers d))" using uP kp by metis
  show "None \<notin> set (map sp_passenger_id (staging_passengers d))" using uP kp by metis
  show "distinct (map st_ticket_id (staging_tickets d))" using uT kt by metis
  show "None \<notin> set (map st_ticket_id (staging_tickets d))" using uT kt by metis
qed


lemma run_Cons_cases:
  assumes "run E (s # ss) d = (issued, r)"
  shows "(\<exists>e. execute E s d = Inl e \<and> issued = [s] \<and> r = Inl e) \<or>
     (\<exists>d1 rest. execute E s d = Inr d1 \<and> run E ss d1 = (rest, r) \<and> issued = s # rest)"
proof (cases "execute E s d")
  case (Inl e)
  with assms have "issued = [s]" "r = Inl e" by simp_all
  with Inl show ?thesis by blast
next
  case (Inr d1)
  obtain rest r1 where "run E ss d1 = (rest, r1)" by (cases "run E ss d1")
  with Inr assms have "issued = s # rest" "r1 = r" by simp_all
  with Inr \<open>run E ss d1 = (rest, r1)\<close> show ?thesis by blast
qed

lemma engine_begin_run:
  "engine_begin E body d = (d', issued, r) \<Longrightarrow>
     \<exists>x. run E (body @ [Commit]) d = (issued, x)"
  by (cases "run E (body @ [Commit]) d") (auto simp: engine_begin_def split: sum.splits)

lemma transform_and_load_issued_cases:
  assumes "transform_and_load E d = (d', issued, r)"
  shows "issued \<in> set [[DeleteTickets],
           [DeleteTickets, DeletePassengers],
           [DeleteTickets, DeletePassengers, InsertPassengers],
           [DeleteTickets, DeletePassengers, InsertPassengers, InsertTickets],
           [DeleteTickets, DeletePassengers, InsertPassengers, InsertTickets, Commit]]"
proof -
  from assms have "engine_begin E [DeleteTickets, DeletePassengers, InsertPassengers, InsertTickets] d = (d', issued, r)"
    by (simp add: transform_and_load_def)
  from engine_begin_run [OF this] obtain x where
    "run E [DeleteTickets, DeletePassengers, InsertPassengers, InsertTickets, Commit] d = (issued, x)"
    by (auto simp del: run.simps)
  then show ?thesis
    by (auto dest!: run_Cons_cases simp del: run.simps(2))
qed

lemma transform_and_load_rerun:
  assumes "transform_and_load E d = (d1, issued, None)" and "LOWER E' = LOWER E"
  shows "fst (transform_and_load E' d1) = d1"
proof -
  note ok = transform_and_load_ok [OF assms(1)]
  obtain d2 issued2 r2 where t2: "transform_and_load E' d1 = (d2, issued2, r2)"
    by (cases "transform_and_load E' d1")
  show ?thesis
  proof (cases r2)
    case None
    with t2 have "d2 = d1\<lparr>passengers := map (select_passenger E') (staging_passengers d1),
                  tickets := map select_ticket (staging_tickets d1)\<rparr>"
      using transform_and_load_ok(1) by blast
    with ok(1) select_passenger_cong [OF assms(2)] have "d2 = d1" by simp
    with t2 show ?thesis by simp
  next
    case (Some e)
    with t2 have "d2 = d1" by (simp add: transform_and_load_def engine_begin_Some)
    with t2 show ?thesis by simp
  qed
qed

lemma transform_and_load_from_staging:
  assumes "transform_and_load E d = (d1, issued, None)"
    and "transform_and_load E' d' = (d1', issued', None)"
    and "LOWER E' = LOWER E"
    and "staging_passengers d = staging_passengers d'"
    and "staging_tickets d = staging_tickets d'"
  shows "passengers d1 = passengers d1' \<and> tickets d1 = tickets d1'"
  using transform_and_load_ok(1) [OF assms(1)] transform_and_load_ok(1) [OF assms(2)]
    select_passenger_cong [OF assms(3)] assms(4,5)
  by simp

lemma load_to_staging_ok:
  assumes "load_to_staging E p t d = (d', issued, None)"
  shows "d' = d\<lparr>staging_passengers := sp_rows E p, staging_tickets := st_rows E t,
                 sp_identity := sp_draws E p, st_identity := st_draws E t\<rparr>"
    and "issued = [TruncateStaging, AppendStagingPassengers p, AppendStagingTickets t, Commit]"
proof -
  from assms obtain d1 d2 d3 where
    e1: "execute E TruncateStaging d = Inr d1" and
    e2: "execute E (AppendStagingPassengers p) d1 = Inr d2" and
    e3: "execute E (AppendStagingTickets t) d2 = Inr d3" and
    e4: "execute E Commit d3 = Inr d'" and
    i: "issued = [TruncateStaging, AppendStagingPassengers p, AppendStagingTickets t, Commit]"
    unfolding load_to_staging_def engine_begin_None
    by (auto simp: run_Cons_Inr run_Nil_Inr simp del: run.simps)
  from e1 have d1: "d1 = d\<lparr>staging_passengers := [], staging_tickets := [],
                 sp_identity := 0, st_identity := 0\<rparr>"
    by (auto simp: execute_def split: if_splits)
  from e2 have d2: "d2 = d1\<lparr>staging_passengers := staging_passengers d1 @ sp_rows E p,
                 sp_identity := sp_identity d1 + sp_draws E p\<rparr>"
    by (auto simp: execute_def split: if_splits)
  from e3 have d3: "d3 = d2\<lparr>staging_tickets := staging_tickets d2 @ st_rows E t,
                 st_identity := st_identity d2 + st_draws E t\<rparr>"
    by (auto simp: execute_def split: if_splits)
  from e4 have d4: "d' = d3" by (simp add: execute_Commit)
  show "d' = d\<lparr>staging_passengers := sp_rows E p, staging_tickets := st_rows E t,
                 sp_identity := sp_draws E p, st_identity := st_draws E t\<rparr>"
    by (simp add: d1 d2 d3 d4)
  show "issued = [TruncateStaging, AppendStagingPassengers p, AppendStagingTickets t, Commit]"
    by (rule i)
qed


section \<open>Transform-and-promote\<close>




text \<open>
  Claim C2. Promotion is idempotent: running \<^verbatim>\<open>transform_and_load\<close> a second time on what
  the first run left (the staging tables are not written by it) gives the database of the
  first run. By \<open>transform_and_load_rerun\<close> this holds as well when the second run meets
  other outside failures than the first, and by \<open>transform_and_load_from_staging\<close> the
  final tables of a successful run depend on the staging tables only (in one database,
  whose \<^verbatim>\<open>LOWER\<close> is the same in both runs).
\<close>

theorem transform_and_load_idempotent:
  "fst (transform_and_load E (fst (transform_and_load E d))) = fst (transform_and_load E d)"
proof -
  obtain d1 issued r where t: "transform_and_load E d = (d1, issued, r)"
    by (cases "transform_and_load E d")
  show ?thesis
  proof (cases r)
    case None
    with t transform_and_load_rerun [of E d d1 issued E] show ?thesis by simp
  next
    case (Some e)
    with t have "d1 = d" by (simp add: transform_and_load_def engine_begin_Some)
    with t show ?thesis by simp
  qed
qed

text \<open>On the staged example, one run and two runs both end in the same final tables.\<close>

theorem transform_and_load_idempotent_witness:
  "fst (transform_and_load example_engine example_staged_db) = example_final_db \<and>
   fst (transform_and_load example_engine (fst (transform_and_load example_engine example_staged_db)))
     = example_final_db"
proof -
  have h: "fst (transform_and_load example_engine example_staged_db) = example_final_db"
    by code_simp
  from transform_and_load_idempotent [of example_engine example_staged_db] h
  show ?thesis by simp
qed

text \<open>
  Claim C7. The statements of a promotion are issued in a fixed order: the tickets are
  deleted first, the passengers next, and every insert into a final table comes after both
  deletes; no statement is issued twice. After a successful promotion the final tables
  therefore hold the promoted staging rows and nothing of their earlier contents.
\<close>

theorem final_tables_cleared_before_inserts:
  assumes "transform_and_load E d = (d', issued, r)"
  shows "hd issued = DeleteTickets \<and> distinct issued \<and>
         (DeletePassengers \<in> set issued \<longrightarrow> happens_before DeleteTickets DeletePassengers issued) \<and>
         (InsertPassengers \<in> set issued \<longrightarrow>
            happens_before DeleteTickets InsertPassengers issued \<and>
            happens_before DeletePassengers InsertPassengers issued) \<and>
         (InsertTickets \<in> set issued \<longrightarrow>
            happens_before DeleteTickets InsertTickets issued \<and>
            happens_before DeletePassengers InsertTickets issued) \<and>
         (r = None \<longrightarrow>
            passengers d' = map (select_passenger E) (staging_passengers d) \<and>
            tickets d' = map select_ticket (staging_tickets d))"
proof -
  have ord: "hd issued = DeleteTickets \<and> distinct issued \<and>
         (DeletePassengers \<in> set issued \<longrightarrow> happens_before DeleteTickets DeletePassengers issued) \<and>
         (InsertPassengers \<in> set issued \<longrightarrow>
            happens_before DeleteTickets InsertPassengers issued \<and>
            happens_before DeletePassengers InsertPassengers issued) \<and>
         (InsertTickets \<in> set issued \<longrightarrow>
            happens_before DeleteTickets InsertTickets issued \<and>
            happens_before DeletePassengers InsertTickets issued)"
    using transform_and_load_issued_cases [OF assms] by auto
  have "passengers d' = map (select_passenger E) (staging_passengers d) \<and>
        tickets d' = map select_ticket (staging_tickets d)" if "r = None"
    using transform_and_load_ok(1) [of E d d' issued] assms that by simp
  with ord show ?thesis by blast
qed

text \<open>The statements issued for the staged example, whose final tables were not empty.\<close>

theorem final_tables_cleared_before_inserts_witness:
  "transform_and_load example_engine example_staged_db =
     (example_final_db,
      [DeleteTickets, DeletePassengers, InsertPassengers, InsertTickets, Commit], None) \<and>
   happens_before DeleteTickets DeletePassengers
     [DeleteTickets, DeletePassengers, InsertPassengers, InsertTickets, Commit] \<and>
   happens_before DeletePassengers InsertPassengers
     [DeleteTickets, DeletePassengers, InsertPassengers, InsertTickets, Commit] \<and>
   happens_before DeletePassengers InsertTickets
     [DeleteTickets, DeletePassengers, InsertPassengers, InsertTickets, Commit] \<and>
   old_passenger \<in> set (passengers example_staged_db) \<and>
   passengers example_final_db = map (select_passenger example_engine) (staging_passengers example_staged_db)"
proof -
  have h1: "transform_and_load example_engine example_staged_db =
     (example_final_db,
      [DeleteTickets, DeletePassengers, InsertPassengers, InsertTickets, Commit], None)"
    by code_simp
  have o: "old_passenger \<in> set (passengers example_staged_db)"
    by (simp add: example_staged_db_def)
  from final_tables_cleared_before_inserts [OF h1] h1 o show ?thesis by simp
qed

section \<open>Staging loader\<close>

text \<open>
  Claim C6. \<^verbatim>\<open>load_to_staging\<close> is all or nothing. When it succeeds it has issued the
  truncation of both staging tables (which restarts their identity sequences), then the
  append of the passenger batch, then the append of the ticket batch, then the commit; the
  staging tables hold exactly the rows of the two new batches, the identity sequences have
  been drawn from by these rows only, and the final tables are untouched. When it fails,
  the database is as it was before.
\<close>

theorem load_to_staging_all_or_nothing:
  "(load_to_staging E p t d = (d', issued, None) \<longrightarrow>
      issued = [TruncateStaging, AppendStagingPassengers p, AppendStagingTickets t, Commit] \<and>
      staging_passengers d' = sp_rows E p \<and> staging_tickets d' = st_rows E t \<and>
      sp_identity d' = sp_draws E p \<and> st_identity d' = st_draws E t \<and>
      passengers d' = passengers d \<and> tickets d' = tickets d) \<and>
   (load_to_staging E p t d = (d', issued, Some e) \<longrightarrow> d' = d)"
proof -
  have "d' = d" if "load_to_staging E p t d = (d', issued, Some e)"
    using that by (simp add: load_to_staging_def engine_begin_Some)
  moreover have "issued = [TruncateStaging, AppendStagingPassengers p, AppendStagingTickets t, Commit] \<and>
      staging_passengers d' = sp_rows E p \<and> staging_tickets d' = st_rows E t \<and>
      sp_identity d' = sp_draws E p \<and> st_identity d' = st_draws E t \<and>
      passengers d' = passengers d \<and> tickets d' = tickets d"
    if "load_to_staging E p t d = (d', issued, None)"
    using load_to_staging_ok [OF that] by simp
  ultimately show ?thesis by blast
qed

text \<open>The example batches staged over the rows of an earlier run, and the same load on
  an engine that refuses the ticket batch: the passenger batch is not kept either.\<close>

theorem load_to_staging_all_or_nothing_witness:
  "load_to_staging example_engine example_passengers_df example_tickets_df old_db =
     (example_staged_db,
      [TruncateStaging, AppendStagingPassengers example_passengers_df,
       AppendStagingTickets example_tickets_df, Commit], None) \<and>
   staging_passengers example_staged_db = [alice_sp_row, bob_sp_row] \<and>
   staging_tickets example_staged_db = example_st_rows \<and>
   passengers example_staged_db = passengers old_db \<and>
   load_to_staging faulty_engine example_passengers_df example_tickets_df old_db =
     (old_db,
      [TruncateStaging, AppendStagingPassengers example_passengers_df,
       AppendStagingTickets example_tickets_df],
      Some (Fault (AppendStagingTickets example_tickets_df)))"
proof -
  have h1: "load_to_staging example_engine example_passengers_df example_tickets_df old_db =
     (example_staged_db,
      [TruncateStaging, AppendStagingPassengers example_passengers_df,
       AppendStagingTickets example_tickets_df, Commit], None)"
    by code_simp
  have h2: "load_to_staging faulty_engine example_passengers_df example_tickets_df old_db =
     (fst (load_to_staging faulty_engine example_passengers_df example_tickets_df old_db),
      [TruncateStaging, AppendStagingPassengers example_passengers_df,
       AppendStagingTickets example_tickets_df],
      Some (Fault (AppendStagingTickets example_tickets_df)))"
    by code_simp
  have r: "sp_rows example_engine example_passengers_df = [alice_sp_row, bob_sp_row]"
    "st_rows example_engine example_tickets_df = example_st_rows"
    by code_simp+
  from load_to_staging_all_or_nothing [of example_engine example_passengers_df example_tickets_df
      old_db example_staged_db _ _] h1 r
  have a: "staging_passengers example_staged_db = [alice_sp_row, bob_sp_row] \<and>
      staging_tickets example_staged_db = example_st_rows \<and>
      passengers example_staged_db = passengers old_db"
    by simp
  from load_to_staging_all_or_nothing [of faulty_engine example_passengers_df example_tickets_df
      old_db _ _ "Fault (AppendStagingTickets example_tickets_df)"] h2
  have b: "fst (load_to_staging faulty_engine example_passengers_df example_tickets_df old_db) = old_db"
    by blast
  from h1 h2 a b show ?thesis by simp
qed

section \<open>The runs of the pipeline\<close>

text \<open>Every run of \<open>main\<close> ends in one of nine ways.\<close>

lemma main_cases [consumes 1, case_names no_file no_db bad_csv no_tickets_file name_error
    no_ids staging_failed promote_failed promoted]:
  assumes "main W p t d = (out, evs, d')"
  obtains
    "\<not> file_exists W p" "out = SysExit 1" "evs = [CheckPassengersPath]" "d' = d"
  | "file_exists W p" "\<not> connect_ok W" "out = SysExit 1"
    "evs = [CheckPassengersPath, ConnectDb]" "d' = d"
  | "file_exists W p" "connect_ok W" "load_and_prepare_passengers (read_csv W p) = Inl 1"
    "out = SysExit 1" "evs = [CheckPassengersPath, ConnectDb, ReadPassengersCsv]" "d' = d"
  | pdf where "file_exists W p" "connect_ok W"
    "load_and_prepare_passengers (read_csv W p) = Inr pdf"
    "truthy t" "\<not> file_exists W (the t)" "out = SysExit 1"
    "evs = [CheckPassengersPath, ConnectDb, ReadPassengersCsv, CheckTicketsPath]" "d' = d"
  | pdf where "file_exists W p" "connect_ok W"
    "load_and_prepare_passengers (read_csv W p) = Inr pdf"
    "truthy t" "file_exists W (the t)" "out = Uncaught (NameError ''load_and_prepare_tickets'')"
    "evs = [CheckPassengersPath, ConnectDb, ReadPassengersCsv, CheckTicketsPath, LoadTickets]"
    "d' = d"
  | pdf e where "file_exists W p" "connect_ok W"
    "load_and_prepare_passengers (read_csv W p) = Inr pdf"
    "\<not> truthy t" "create_tickets_df pdf = Inl e" "out = Uncaught e"
    "evs = [CheckPassengersPath, ConnectDb, ReadPassengersCsv, CreateTickets]" "d' = d"
  | pdf tdf issued e where "file_exists W p" "connect_ok W"
    "load_and_prepare_passengers (read_csv W p) = Inr pdf"
    "\<not> truthy t" "create_tickets_df pdf = Inr tdf"
    "load_to_staging (pg W) pdf tdf d = (d', issued, Some e)" "out = UncaughtSql e"
    "evs = [CheckPassengersPath, ConnectDb, ReadPassengersCsv, CreateTickets, StagingLoad]"
    "d' = d"
  | pdf tdf d1 issued issued' e where "file_exists W p" "connect_ok W"
    "load_and_prepare_passengers (read_csv W p) = Inr pdf"
    "\<not> truthy t" "create_tickets_df pdf = Inr tdf"
    "load_to_staging (pg W) pdf tdf d = (d1, issued, None)"
    "transform_and_load (pg W) d1 = (d', issued', Some e)" "out = UncaughtSql e"
    "evs = [CheckPassengersPath, ConnectDb, ReadPassengersCsv, CreateTickets, StagingLoad,
            Promote]"
    "d' = d1"
  | pdf tdf d1 issued issued' where "file_exists W p" "connect_ok W"
    "load_and_prepare_passengers (read_csv W p) = Inr pdf"
    "\<not> truthy t" "create_tickets_df pdf = Inr tdf"
    "load_to_staging (pg W) pdf tdf d = (d1, issued, None)"
    "transform_and_load (pg W) d1 = (d', issued', None)" "out = show_analytics W (pg W) d'"
    "evs = [CheckPassengersPath, ConnectDb, ReadPassengersCsv, CreateTickets, StagingLoad,
            Promote, Report]"
proof (cases "file_exists W p")
  case False
  with assms that(1) show ?thesis by (simp add: main_def)
next
  case fe: True
  show ?thesis
  proof (cases "connect_ok W")
    case False
    with fe assms that(2) show ?thesis by (simp add: main_def connect_db_def)
  next
    case co: True
    show ?thesis
    proof (cases "load_and_prepare_passengers (read_csv W p)")
      case (Inl n)
      then have "n = 1" by (rule load_and_prepare_passengers_exit)
      with Inl fe co assms that(3) show ?thesis by (simp add: main_def connect_db_def)
    next
      case pd: (Inr pdf)
      show ?thesis
      proof (cases "truthy t")
        case tr: True
        show ?thesis
        proof (cases "file_exists W (the t)")
          case False
          with tr pd fe co assms that(4) show ?thesis by (simp add: main_def connect_db_def)
        next
          case True
          with tr pd fe co assms that(5) show ?thesis by (simp add: main_def connect_db_def)
        qed
      next
        case nt: False
        show ?thesis
        proof (cases "create_tickets_df pdf")
          case (Inl e)
          with nt pd fe co assms that(6) show ?thesis by (simp add: main_def connect_db_def)
        next
          case td: (Inr tdf)
          obtain d1 issued r1 where st: "load_to_staging (pg W) pdf tdf d = (d1, issued, r1)"
            by (cases "load_to_staging (pg W) pdf tdf d")
          show ?thesis
          proof (cases r1)
            case (Some e)
            with st have "d1 = d" by (simp add: load_to_staging_def engine_begin_Some)
            with Some st have st': "load_to_staging (pg W) pdf tdf d = (d, issued, Some e)"
              by simp
            from assms fe co pd nt td st' have
              "out = UncaughtSql e"
              "evs = [CheckPassengersPath, ConnectDb, ReadPassengersCsv, CreateTickets, StagingLoad]"
              "d' = d"
              by (simp_all add: main_def connect_db_def)
            with fe co pd nt td st' that(7) show ?thesis by blast
          next
            case sn: None
            with st have st': "load_to_staging (pg W) pdf tdf d = (d1, issued, None)" by simp
            obtain d2 issued' r2 where tl: "transform_and_load (pg W) d1 = (d2, issued', r2)"
              by (cases "transform_and_load (pg W) d1")
            show ?thesis
            proof (cases r2)
              case (Some e)
              with tl have "d2 = d1" by (simp add: transform_and_load_def engine_begin_Some)
              with Some tl have tl': "transform_and_load (pg W) d1 = (d1, issued', Some e)"
                by simp
              from assms fe co pd nt td st' tl' have
                "out = UncaughtSql e"
                "evs = [CheckPassengersPath, ConnectDb, ReadPassengersCsv, CreateTickets,
                        StagingLoad, Promote]"
                "d' = d1"
                by (simp_all add: main_def connect_db_def)
              with fe co pd nt td st' tl' that(8) show ?thesis by blast
            next
              case None
              with tl have tl': "transform_and_load (pg W) d1 = (d2, issued', None)" by simp
              from assms fe co pd nt td st' tl' have
                "out = show_analytics W (pg W) d2"
                "evs = [CheckPassengersPath, ConnectDb, ReadPassengersCsv, CreateTickets,
                        StagingLoad, Promote, Report]"
                "d' = d2"
                by (auto simp: main_def connect_db_def)
              with fe co pd nt td st' tl' that(9) show ?thesis by blast
            qed
          qed
        qed
      qed
    qed
  qed
qed

lemma show_analytics_exit:
  "exit_code (show_analytics W E d) = (if show_analytics W E d = Completed then 0 else 1)"
  by (auto simp: show_analytics_def split: sum.splits)



text \<open>
  Claim C8, amended. The existence of the passengers file is the first step of every run,
  and a missing passengers file ends the run with status 1 before the database connection
  is attempted. A tickets path that is given and does not exist also ends the run with
  status 1 and before anything is written to the database, but where this check is reached
  it comes after the connection to the database and after the passengers file was read.
\<close>

theorem missing_file_exits:
  assumes "main W passengers_csv tickets_csv d = (out, evs, d')"
  shows "hd evs = CheckPassengersPath \<and>
         (ConnectDb \<in> set evs \<longrightarrow> file_exists W passengers_csv) \<and>
         (\<not> file_exists W passengers_csv \<longrightarrow>
            out = SysExit 1 \<and> evs = [CheckPassengersPath] \<and> d' = d) \<and>
         (truthy tickets_csv \<and> \<not> file_exists W (the tickets_csv) \<longrightarrow>
            out = SysExit 1 \<and> d' = d \<and> StagingLoad \<notin> set evs \<and> Promote \<notin> set evs \<and>
            (CheckTicketsPath \<in> set evs \<longrightarrow>
               last evs = CheckTicketsPath \<and>
               happens_before ConnectDb CheckTicketsPath evs \<and>
               happens_before ReadPassengersCsv CheckTicketsPath evs))"
  using assms by (cases rule: main_cases) simp_all

text \<open>A run without the passengers file, and a run without the tickets file.\<close>

theorem missing_file_exits_witness:
  "\<not> file_exists example_world ''missing.csv'' \<and>
   main example_world ''missing.csv'' None old_db = (SysExit 1, [CheckPassengersPath], old_db) \<and>
   truthy (Some ''nothere.csv'') \<and> \<not> file_exists example_world ''nothere.csv'' \<and>
   main example_world ''titanic.csv'' (Some ''nothere.csv'') old_db =
     (SysExit 1, [CheckPassengersPath, ConnectDb, ReadPassengersCsv, CheckTicketsPath], old_db) \<and>
   happens_before ConnectDb CheckTicketsPath
     [CheckPassengersPath, ConnectDb, ReadPassengersCsv, CheckTicketsPath]"
proof -
  have f: "\<not> file_exists example_world ''missing.csv''"
    "\<not> file_exists example_world ''nothere.csv''"
    by (simp_all add: example_world_def)
  let ?m = "main example_world ''missing.csv'' None old_db"
  have h1: "?m = (fst ?m, fst (snd ?m), snd (snd ?m))" by simp
  from missing_file_exits [OF h1] f(1)
  have a: "?m = (SysExit 1, [CheckPassengersPath], old_db)"
    by (metis h1)
  have h2: "main example_world ''titanic.csv'' (Some ''nothere.csv'') old_db =
     (SysExit 1, [CheckPassengersPath, ConnectDb, ReadPassengersCsv, CheckTicketsPath], old_db)"
    by code_simp
  from missing_file_exits [OF h2] f(2)
  have b: "happens_before ConnectDb CheckTicketsPath
     [CheckPassengersPath, ConnectDb, ReadPassengersCsv, CheckTicketsPath]"
    by simp
  from f a h2 b show ?thesis by simp
qed

text \<open>
  As Claim C8 is worded, the check of a tickets path would precede the connection. In the
  run with an existing passengers file and a missing tickets file the connection is
  attempted first.
\<close>

theorem tickets_check_after_connect:
  "\<not> file_exists example_world ''nothere.csv'' \<and>
   fst (snd (main example_world ''titanic.csv'' (Some ''nothere.csv'') old_db)) =
     [CheckPassengersPath, ConnectDb, ReadPassengersCsv, CheckTicketsPath] \<and>
   happens_before ConnectDb CheckTicketsPath
     (fst (snd (main example_world ''titanic.csv'' (Some ''nothere.csv'') old_db))) \<and>
   \<not> happens_before CheckTicketsPath ConnectDb
     (fst (snd (main example_world ''titanic.csv'' (Some ''nothere.csv'') old_db)))"
  by code_simp

text \<open>
  Claim C9. When every step succeeds (the passengers file exists, the database is
  reached, the file is prepared, the tickets are synthesized, the staging load and the
  promotion commit, and the report is read and rendered), the run completes and the process
  ends with status 0. In every other run it ends with status 1; in particular when the
  database cannot be reached, when the passengers file or a given tickets file is missing,
  when the passengers file cannot be parsed, and when the staging transaction or the
  promotion transaction fails. A run that completes has gone through every step.
\<close>

theorem exit_codes:
  assumes "main W passengers_csv tickets_csv d = (out, evs, d')"
  shows "(file_exists W passengers_csv \<and> connect_ok W \<and>
          load_and_prepare_passengers (read_csv W passengers_csv) = Inr pdf \<and>
          \<not> truthy tickets_csv \<and> create_tickets_df pdf = Inr tdf \<and>
          load_to_staging (pg W) pdf tdf d = (d1, issued, None) \<and>
          transform_and_load (pg W) d1 = (d2, issued', None) \<and>
          \<not> faults (pg W) SelectAnalytics d2 \<and> \<not> render_raises W d2 \<longrightarrow>
            out = Completed \<and> exit_code out = 0 \<and> d' = d2) \<and>
         exit_code out = (if out = Completed then 0 else 1) \<and>
         (\<not> connect_ok W \<longrightarrow> exit_code out = 1) \<and>
         (\<not> file_exists W passengers_csv \<longrightarrow> exit_code out = 1) \<and>
         (truthy tickets_csv \<and> \<not> file_exists W (the tickets_csv) \<longrightarrow> exit_code out = 1) \<and>
         (read_csv W passengers_csv = None \<longrightarrow> exit_code out = 1) \<and>
         (load_and_prepare_passengers (read_csv W passengers_csv) = Inr pdf \<and>
          create_tickets_df pdf = Inr tdf \<and>
          load_to_staging (pg W) pdf tdf d = (d1, issued, Some e) \<longrightarrow> exit_code out = 1) \<and>
         (load_and_prepare_passengers (read_csv W passengers_csv) = Inr pdf \<and>
          create_tickets_df pdf = Inr tdf \<and>
          load_to_staging (pg W) pdf tdf d = (d1, issued, None) \<and>
          transform_and_load (pg W) d1 = (d2, issued', Some e) \<longrightarrow> exit_code out = 1) \<and>
         (out = Completed \<longrightarrow>
            evs = [CheckPassengersPath, ConnectDb, ReadPassengersCsv, CreateTickets, StagingLoad,
                   Promote, Report])"
proof -
  have forward: "out = Completed \<and> exit_code out = 0 \<and> d' = d2"
    if fe: "file_exists W passengers_csv" and co: "connect_ok W"
      and pd: "load_and_prepare_passengers (read_csv W passengers_csv) = Inr pdf"
      and nt: "\<not> truthy tickets_csv" and td: "create_tickets_df pdf = Inr tdf"
      and st: "load_to_staging (pg W) pdf tdf d = (d1, issued, None)"
      and tl: "transform_and_load (pg W) d1 = (d2, issued', None)"
      and nf: "\<not> faults (pg W) SelectAnalytics d2" and nr: "\<not> render_raises W d2"
  proof -
    from nf nr have "show_analytics W (pg W) d2 = Completed"
      by (simp add: show_analytics_def execute_def)
    with fe co pd nt td st tl have "main W passengers_csv tickets_csv d =
        (Completed,
         [CheckPassengersPath, ConnectDb, ReadPassengersCsv, CreateTickets, StagingLoad, Promote,
          Report], d2)"
      by (simp add: main_def connect_db_def)
    with assms show ?thesis by simp
  qed
  have rest: "exit_code out = (if out = Completed then 0 else 1) \<and>
         (\<not> connect_ok W \<longrightarrow> exit_code out = 1) \<and>
         (\<not> file_exists W passengers_csv \<longrightarrow> exit_code out = 1) \<and>
         (truthy tickets_csv \<and> \<not> file_exists W (the tickets_csv) \<longrightarrow> exit_code out = 1) \<and>
         (read_csv W passengers_csv = None \<longrightarrow> exit_code out = 1) \<and>
         (load_and_prepare_passengers (read_csv W passengers_csv) = Inr pdf \<and>
          create_tickets_df pdf = Inr tdf \<and>
          load_to_staging (pg W) pdf tdf d = (d1, issued, Some e) \<longrightarrow> exit_code out = 1) \<and>
         (load_and_prepare_passengers (read_csv W passengers_csv) = Inr pdf \<and>
          create_tickets_df pdf = Inr tdf \<and>
          load_to_staging (pg W) pdf tdf d = (d1, issued, None) \<and>
          transform_and_load (pg W) d1 = (d2, issued', Some e) \<longrightarrow> exit_code out = 1) \<and>
         (out = Completed \<longrightarrow>
            evs = [CheckPassengersPath, ConnectDb, ReadPassengersCsv, CreateTickets, StagingLoad,
                   Promote, Report])"
    using assms
    by (cases rule: main_cases)
       (auto simp: show_analytics_exit load_and_prepare_passengers_None
         dest: load_and_prepare_passengers_parsed)
  from forward rest show ?thesis by blast
qed

text \<open>The status of six runs: one that completes, and one for each kind of failure.\<close>

theorem exit_codes_witness:
  "exit_code (fst (main example_world ''titanic.csv'' None old_db)) = 0 \<and>
   exit_code (fst (main offline_world ''titanic.csv'' None old_db)) = 1 \<and>
   exit_code (fst (main example_world ''missing.csv'' None old_db)) = 1 \<and>
   exit_code (fst (main example_world ''titanic.csv'' (Some ''nothere.csv'') old_db)) = 1 \<and>
   exit_code (fst (main example_world ''tickets.csv'' None old_db)) = 1 \<and>
   exit_code (fst (main example_world ''twice.csv'' None old_db)) = 1"
proof -
  have p: "main W a b d = (fst (main W a b d), fst (snd (main W a b d)), snd (snd (main W a b d)))"
    for W a b d by simp
  have c: "fst (main example_world ''titanic.csv'' None old_db) = Completed" by code_simp
  have o: "\<not> connect_ok offline_world" by (simp add: offline_world_def example_world_def)
  have f: "\<not> file_exists example_world ''missing.csv''"
    "truthy (Some ''nothere.csv'') \<and> \<not> file_exists example_world (the (Some ''nothere.csv''))"
    "read_csv example_world ''tickets.csv'' = None"
    by (simp_all add: example_world_def)
  have s: "fst (main example_world ''twice.csv'' None old_db) \<noteq> Completed" by code_simp
  have g: "file_exists example_world ''titanic.csv''" "connect_ok example_world"
    "\<not> truthy None" "\<not> render_raises example_world example_final_db"
    "\<not> faults (pg example_world) SelectAnalytics example_final_db"
    by (simp_all add: example_world_def example_engine_def)
  have pd: "load_and_prepare_passengers (read_csv example_world ''titanic.csv'') =
      Inr example_passengers_df"
    by code_simp
  have td: "create_tickets_df example_passengers_df = Inr example_tickets_df" by code_simp
  have st: "load_to_staging (pg example_world) example_passengers_df example_tickets_df old_db =
     (example_staged_db,
      [TruncateStaging, AppendStagingPassengers example_passengers_df,
       AppendStagingTickets example_tickets_df, Commit], None)"
    by code_simp
  have tl: "transform_and_load (pg example_world) example_staged_db =
     (example_final_db,
      [DeleteTickets, DeletePassengers, InsertPassengers, InsertTickets, Commit], None)"
    by code_simp
  from exit_codes [OF p [of example_world "''titanic.csv''" None old_db],
      where pdf = example_passengers_df and tdf = example_tickets_df
        and ?d1.0 = example_staged_db and ?d2.0 = example_final_db
        and issued = "[TruncateStaging, AppendStagingPassengers example_passengers_df,
           AppendStagingTickets example_tickets_df, Commit]"
        and issued' = "[DeleteTickets, DeletePassengers, InsertPassengers, InsertTickets, Commit]"]
    g pd td st tl
  have 1: "exit_code (fst (main example_world ''titanic.csv'' None old_db)) = 0" by blast
  from exit_codes [OF p [of offline_world "''titanic.csv''" None old_db]] o
  have 2: "exit_code (fst (main offline_world ''titanic.csv'' None old_db)) = 1" by blast
  from exit_codes [OF p [of example_world "''missing.csv''" None old_db]] f(1)
  have 3: "exit_code (fst (main example_world ''missing.csv'' None old_db)) = 1" by blast
  from exit_codes [OF p [of example_world "''titanic.csv''" "Some ''nothere.csv''" old_db]] f(2)
  have 4: "exit_code (fst (main example_world ''titanic.csv'' (Some ''nothere.csv'') old_db)) = 1"
    by blast
  from exit_codes [OF p [of example_world "''tickets.csv''" None old_db]] f(3)
  have 5: "exit_code (fst (main example_world ''tickets.csv'' None old_db)) = 1" by blast
  from exit_codes [OF p [of example_world "''twice.csv''" None old_db]] s
  have 6: "exit_code (fst (main example_world ''twice.csv'' None old_db)) = 1" by simp
  from 1 2 3 4 5 6 show ?thesis by simp
qed

text \<open>
  Claim C10, amended. A run with a tickets path that is given and exists never stages
  or promotes anything and ends with status 1, the database unchanged. It ends with the
  uncaught NameError for \<^verbatim>\<open>load_and_prepare_tickets\<close> exactly when the passengers file
  exists, the database is reached and the passengers file is prepared; otherwise one of
  these earlier steps has already ended the run with \<^verbatim>\<open>sys.exit(1)\<close>. In every run that reaches the staging
  load, no tickets path was given and the tickets were synthesized.
\<close>

theorem tickets_file_never_staged:
  assumes "main W passengers_csv tickets_csv d = (out, evs, d')"
  shows "(truthy tickets_csv \<and> file_exists W (the tickets_csv) \<longrightarrow>
            exit_code out = 1 \<and> d' = d \<and> StagingLoad \<notin> set evs \<and> Promote \<notin> set evs \<and>
            (out = Uncaught (NameError ''load_and_prepare_tickets'') \<or> out = SysExit 1) \<and>
            ((out = Uncaught (NameError ''load_and_prepare_tickets'')) =
               (file_exists W passengers_csv \<and> connect_ok W \<and>
                (\<exists>pdf. load_and_prepare_passengers (read_csv W passengers_csv) = Inr pdf))) \<and>
            (LoadTickets \<in> set evs \<longrightarrow>
               out = Uncaught (NameError ''load_and_prepare_tickets'') \<and> last evs = LoadTickets)) \<and>
         (StagingLoad \<in> set evs \<longrightarrow> \<not> truthy tickets_csv \<and> CreateTickets \<in> set evs)"
  using assms by (cases rule: main_cases) auto

text \<open>A run with both files present stops at the call of the missing function; a run
  without a tickets path reaches the staging load.\<close>

theorem tickets_file_never_staged_witness:
  "truthy (Some ''tickets.csv'') \<and> file_exists example_world ''tickets.csv'' \<and>
   main example_world ''titanic.csv'' (Some ''tickets.csv'') old_db =
     (Uncaught (NameError ''load_and_prepare_tickets''),
      [CheckPassengersPath, ConnectDb, ReadPassengersCsv, CheckTicketsPath, LoadTickets], old_db) \<and>
   exit_code (Uncaught (NameError ''load_and_prepare_tickets'')) = 1 \<and>
   StagingLoad \<in> set (fst (snd (main example_world ''titanic.csv'' None old_db))) \<and>
   \<not> truthy None"
proof -
  have t: "truthy (Some ''tickets.csv'') \<and> file_exists example_world (the (Some ''tickets.csv''))"
    by (simp add: example_world_def)
  have h: "main example_world ''titanic.csv'' (Some ''tickets.csv'') old_db =
     (Uncaught (NameError ''load_and_prepare_tickets''),
      [CheckPassengersPath, ConnectDb, ReadPassengersCsv, CheckTicketsPath, LoadTickets], old_db)"
    by code_simp
  have s: "StagingLoad \<in> set (fst (snd (main example_world ''titanic.csv'' None old_db)))"
    by code_simp
  from tickets_file_never_staged [OF h] t
  have "exit_code (Uncaught (NameError ''load_and_prepare_tickets'')) = 1" by blast
  with t h s show ?thesis by simp
qed

text \<open>
  As Claim C10 is worded, every run with an existing tickets file would end with the
  uncaught error. When the passengers file is missing, the run ends before, with
  \<^verbatim>\<open>sys.exit(1)\<close>.
\<close>

theorem tickets_file_with_missing_passengers:
  "truthy (Some ''tickets.csv'') \<and> file_exists example_world ''tickets.csv'' \<and>
   main example_world ''missing.csv'' (Some ''tickets.csv'') old_db =
     (SysExit 1, [CheckPassengersPath], old_db) \<and>
   fst (main example_world ''missing.csv'' (Some ''tickets.csv'') old_db)
     \<noteq> Uncaught (NameError ''load_and_prepare_tickets'')"
  by code_simp

end
